theory Spec2Isabelle
  imports Complex_Main "HOL-Library.Log_Nat"
begin

section \<open>Data model\<close>

text \<open>
  The documents of the three collections, as the Mongoose schemas declare them.
  Ticket counts, quantities and identifiers are integers (the routes validate them with
  \<open>isInt\<close>; integer arithmetic on JavaScript numbers is exact below \<open>2^53\<close>). Prices
  and total prices are JavaScript numbers, that is IEEE doubles: each is the rational
  it stands for, and a product is rounded to the nearest double (below). A user's
  \<open>_id\<close> is a natural number. Fields that play no part in inventory or bookings
  (name, venue, image, dates, ...) are left out.
\<close>

subsection \<open>JavaScript numbers\<close>

text \<open>
  The double nearest to a rational, ties to even: with \<open>2^e \<le> |x| < 2^(e+1)\<close> the doubles
  around \<open>x\<close> are the multiples of \<open>2^(e-52)\<close> (of \<open>2^(-1074)\<close> in the subnormal
  range). Results beyond the largest double (\<open>Infinity\<close>) are not modelled.
\<close>

definition floor_log2 :: "rat \<Rightarrow> int" where
  "floor_log2 x =
     (case quotient_of x of (a, b) \<Rightarrow>
        let d = bitlen a - bitlen b in if 2 powi d \<le> x then d else d - 1)"

definition round_half_even :: "rat \<Rightarrow> int" where
  "round_half_even y =
     (let r = \<lfloor>y\<rfloor>; d = y - of_int r
      in if d < 1 / 2 then r else if 1 / 2 < d then r + 1 else if even r then r else r + 1)"

definition to_double :: "rat \<Rightarrow> rat" where
  "to_double x =
     (if x = 0 then 0
      else let q = 2 powi (max (floor_log2 \<bar>x\<bar>) (- 1022) - 52)
           in of_int (round_half_even (x / q)) * q)"

text \<open>The JavaScript product \<open>price * quantity\<close> of a number and an integer.\<close>

definition times_Number :: "rat \<Rightarrow> int \<Rightarrow> rat" where
  "times_Number p n = to_double (p * of_int n)"

subsection \<open>Documents\<close>

datatype status = Active | Cancelled

text \<open>An event document; its numeric \<open>id\<close> is the key of the collection below.\<close>

record event_doc =
  price :: rat
  totalTickets :: int
  availableTickets :: int

text \<open>What \<open>new Booking({user, event, quantity, totalPrice})\<close> holds before it is saved:
  the \<open>status\<close> default is \<open>active\<close>, and there is no \<open>id\<close> yet.\<close>

record new_booking =
  user :: nat
  event :: int
  quantity :: int
  totalPrice :: rat
  status :: status

text \<open>A stored booking: the pre-save hook has given it its \<open>id\<close>.\<close>

record booking_doc = new_booking +
  bid :: int

text \<open>Modelled from the spec: the Counter model (counter.model.js is not among the
  sources) is one record per namespace holding the last issued integer, here a map
  from the counter's \<open>name\<close> to its \<open>seq\<close>.\<close>

type_synonym counter_docs = "string \<rightharpoonup> int"

text \<open>
  The database: events keyed by their numeric \<open>id\<close> (the schema's unique index),
  bookings in insertion order, and the counters collection.
\<close>

record db =
  events :: "int \<rightharpoonup> event_doc"
  bookings :: "booking_doc list"
  counters :: counter_docs

text \<open>The authenticated requester \<open>req.user\<close>: the booking routes read only its \<open>_id\<close>;
  the event routes are behind the \<open>isAdmin\<close> middleware.\<close>

record requester =
  uid :: nat
  admin :: bool

text \<open>
  A field of a request body: absent (or empty); a scalar that is not a number; a
  number; the one-element array \<open>[n]\<close>; or an object holding a query operator that
  selects the id \<open>i\<close>, such as \<open>{"$eq": i}\<close>. Other non-scalar values are not modelled.
\<close>

datatype body_field = Absent | Malformed | Num int | NumArray int | Operator int

text \<open>What a handler throws inside its \<open>try\<close> block.\<close>

datatype error =
    InvalidBookingID
  | InvalidEventID
  | StoreError
  | ValidationError
  | CastError
  | TypeError
  | DuplicateKey
  | DocumentNotFound

text \<open>The responses of the handlers, by status code and message.\<close>

datatype response =
    Created booking_doc          \<comment> \<open>201, the booking\<close>
  | ValidationErrors             \<comment> \<open>400, express-validator's errors\<close>
  | EventNotFound                \<comment> \<open>404 Event not found\<close>
  | NotEnoughTickets             \<comment> \<open>400 Not enough tickets available\<close>
  | CancelOk booking_doc         \<comment> \<open>200 Booking cancelled successfully\<close>
  | BookingNotFound              \<comment> \<open>404 Booking not found\<close>
  | NotAuthorized                \<comment> \<open>403 Not authorized to cancel this booking\<close>
  | AlreadyCancelled             \<comment> \<open>400 Booking is already cancelled\<close>
  | InvalidId                    \<comment> \<open>400 Invalid booking ID / Invalid event ID\<close>
  | EventUpdated event_doc       \<comment> \<open>200, the event\<close>
  | CannotReduceTickets          \<comment> \<open>400 Cannot reduce total tickets below ...\<close>
  | EventDeleted                 \<comment> \<open>200 Event deleted successfully\<close>
  | AdminRequired                \<comment> \<open>403 of the isAdmin middleware\<close>
  | ServerError                  \<comment> \<open>500 Error creating / cancelling / updating ...\<close>

section \<open>The store\<close>

text \<open>
  Every call to the store is an \<open>await\<close> that may reject. Which calls reject during one
  request is an input of the model: \<open>f op\<close> says that the store operation \<open>op\<close> fails.
\<close>

datatype store_op =
    FindEvent | SaveEvent | RemoveEvent | FindBooking | SaveBooking | IncCounter | InsertBooking

type_synonym faults = "store_op \<Rightarrow> bool"

definition no_faults :: faults where
  "no_faults = (\<lambda>_. False)"

subsection \<open>Schema validators\<close>

text \<open>The \<open>min\<close> validators of the schemas, run by \<open>save()\<close> before any pre-save hook.\<close>

definition validEvent :: "event_doc \<Rightarrow> bool" where
  "validEvent e = (0 \<le> price e \<and> 1 \<le> totalTickets e \<and> 0 \<le> availableTickets e)"

definition validBooking :: "'a new_booking_scheme \<Rightarrow> bool" where
  "validBooking b = (1 \<le> quantity b \<and> 0 \<le> totalPrice b)"

subsection \<open>Counters\<close>

text \<open>
  \<open>Counter.findOneAndUpdate({name}, {$inc: {seq: inc}}, {new: true, upsert: true})\<close>:
  one atomic store operation that returns the updated counter. The counter found is
  incremented; when there is none, the upsert inserts one from the filter and \<open>$inc\<close>
  sets its absent \<open>seq\<close> to the increment.
\<close>

definition Counter_findOneAndUpdate ::
  "faults \<Rightarrow> counter_docs \<Rightarrow> string \<Rightarrow> int \<Rightarrow> error + (int \<times> counter_docs)" where
  "Counter_findOneAndUpdate f cs name inc =
     (if f IncCounter then Inl StoreError
      else let seq = (case cs name of None \<Rightarrow> inc | Some s \<Rightarrow> s + inc)
           in Inr (seq, cs(name \<mapsto> seq)))"

subsection \<open>Events\<close>

text \<open>\<open>Event.findOne({ id })\<close>.\<close>

definition Event_findOne :: "faults \<Rightarrow> db \<Rightarrow> int \<Rightarrow> error + event_doc option" where
  "Event_findOne f d i = (if f FindEvent then Inl StoreError else Inr (events d i))"

text \<open>
  \<open>event.save()\<close> of a loaded document: validation of the document, then an update
  that sets its modified paths in the stored document (an error when the stored
  document is gone). The handlers below modify \<open>availableTickets\<close>; the update route
  assigns whatever the request body holds.
\<close>

datatype path = Price | TotalTickets | AvailableTickets

definition set_paths :: "path list \<Rightarrow> event_doc \<Rightarrow> event_doc \<Rightarrow> event_doc" where
  "set_paths ps e stored =
     \<lparr>price = (if Price \<in> set ps then price e else price stored),
      totalTickets = (if TotalTickets \<in> set ps then totalTickets e else totalTickets stored),
      availableTickets =
        (if AvailableTickets \<in> set ps then availableTickets e else availableTickets stored)\<rparr>"

definition Event_save :: "faults \<Rightarrow> db \<Rightarrow> int \<Rightarrow> event_doc \<Rightarrow> path list \<Rightarrow> error + db" where
  "Event_save f d i e ps =
     (if \<not> validEvent e then Inl ValidationError
      else if f SaveEvent then Inl StoreError
      else case events d i of
             None \<Rightarrow> Inl DocumentNotFound
           | Some stored \<Rightarrow> Inr (d\<lparr>events := (events d)(i \<mapsto> set_paths ps e stored)\<rparr>))"

text \<open>\<open>Event.findOneAndDelete({ id })\<close>: the deleted document, if there was one.\<close>

definition Event_findOneAndDelete :: "faults \<Rightarrow> db \<Rightarrow> int \<Rightarrow> error + (event_doc option \<times> db)" where
  "Event_findOneAndDelete f d i =
     (if f RemoveEvent then Inl StoreError
      else Inr (events d i, d\<lparr>events := (events d)(i := None)\<rparr>))"

subsection \<open>Bookings\<close>

text \<open>\<open>Booking.findOne({ id })\<close>: the first stored booking with that id.\<close>

definition Booking_findOne :: "faults \<Rightarrow> db \<Rightarrow> int \<Rightarrow> error + booking_doc option" where
  "Booking_findOne f d i =
     (if f FindBooking then Inl StoreError else Inr (find (\<lambda>b. bid b = i) (bookings d)))"

text \<open>The pre-save hook of the booking schema, for a new document: the next
  \<open>bookingId\<close> becomes the booking's \<open>id\<close>.\<close>

definition bookingSchema_pre_save ::
  "faults \<Rightarrow> db \<Rightarrow> new_booking \<Rightarrow> error + (booking_doc \<times> db)" where
  "bookingSchema_pre_save f d b =
     (case Counter_findOneAndUpdate f (counters d) ''bookingId'' 1 of
        Inl e \<Rightarrow> Inl e
      | Inr (seq, cs) \<Rightarrow>
          Inr (\<lparr>user = user b, event = event b, quantity = quantity b,
                totalPrice = totalPrice b, status = status b, bid = seq\<rparr>,
               d\<lparr>counters := cs\<rparr>))"

text \<open>
  \<open>booking.save()\<close> of a new booking: validation, the pre-save hook, then the insert,
  which the unique index on \<open>id\<close> rejects when the id is taken. The database is
  returned in every case: an increment of the counter stays when the insert fails.
\<close>

definition Booking_insert :: "faults \<Rightarrow> db \<Rightarrow> new_booking \<Rightarrow> (error + booking_doc) \<times> db" where
  "Booking_insert f d b =
     (if \<not> validBooking b then (Inl ValidationError, d)
      else case bookingSchema_pre_save f d b of
             Inl e \<Rightarrow> (Inl e, d)
           | Inr (doc, d1) \<Rightarrow>
               if f InsertBooking then (Inl StoreError, d1)
               else if bid doc \<in> set (map bid (bookings d1)) then (Inl DuplicateKey, d1)
               else (Inr doc, d1\<lparr>bookings := bookings d1 @ [doc]\<rparr>))"

text \<open>\<open>booking.save()\<close> of a loaded booking whose \<open>status\<close> was modified (the pre-save
  hook does nothing for a document that is not new): the loaded document is the first
  one with its id, and its status is written.\<close>

fun update_first :: "('a \<Rightarrow> bool) \<Rightarrow> ('a \<Rightarrow> 'a) \<Rightarrow> 'a list \<Rightarrow> 'a list" where
  "update_first P g [] = []"
| "update_first P g (x # xs) = (if P x then g x # xs else x # update_first P g xs)"

definition Booking_save :: "faults \<Rightarrow> db \<Rightarrow> booking_doc \<Rightarrow> error + db" where
  "Booking_save f d b =
     (if \<not> validBooking b then Inl ValidationError
      else if f SaveBooking then Inl StoreError
      else Inr (d\<lparr>bookings :=
             update_first (\<lambda>x. bid x = bid b) (\<lambda>x. x\<lparr>status := status b\<rparr>) (bookings d)\<rparr>))"

section \<open>The booking routes\<close>

text \<open>\<open>parseBookingId\<close>: the argument is what \<open>parseInt\<close> made of the path parameter,
  \<open>None\<close> for \<open>NaN\<close>.\<close>

definition parseBookingId :: "int option \<Rightarrow> error + int" where
  "parseBookingId p = (case p of None \<Rightarrow> Inl InvalidBookingID | Some n \<Rightarrow> Inr n)"

text \<open>The validation chain of \<open>POST /\<close>: \<open>eventId\<close> not empty, \<open>quantity\<close> an integer
  of at least 1. The validators read a value through its string: \<open>[n]\<close> reads as
  \<open>n\<close>, an object does not read as an integer.\<close>

definition validationResult_isEmpty :: "body_field \<Rightarrow> body_field \<Rightarrow> bool" where
  "validationResult_isEmpty eventId qty =
     (eventId \<noteq> Absent \<and>
      (case qty of Num n \<Rightarrow> 1 \<le> n | NumArray n \<Rightarrow> 1 \<le> n | _ \<Rightarrow> False))"

text \<open>The number a body field stands for under \<open><\<close>, \<open>-=\<close> and \<open>*\<close>: \<open>[n]\<close> coerces
  to \<open>n\<close>.\<close>

definition ToNumber :: "body_field \<Rightarrow> int option" where
  "ToNumber v = (case v of Num n \<Rightarrow> Some n | NumArray n \<Rightarrow> Some n | _ \<Rightarrow> None)"

text \<open>The cast of the filter \<open>{ id: eventId }\<close>: a number, an array (read as \<open>$in\<close>)
  and an operator select an id; another scalar cannot be cast.\<close>

definition cast_filter :: "body_field \<Rightarrow> error + int" where
  "cast_filter v =
     (case v of Num i \<Rightarrow> Inr i | NumArray i \<Rightarrow> Inr i | Operator i \<Rightarrow> Inr i
      | _ \<Rightarrow> Inl CastError)"

text \<open>The cast of a value to a Number path of a document: only a number is accepted.\<close>

definition castNumber :: "body_field \<Rightarrow> error + int" where
  "castNumber v = (case v of Num n \<Rightarrow> Inr n | _ \<Rightarrow> Inl CastError)"

text \<open>\<open>new Booking({user, event: eventId, quantity, totalPrice})\<close>. A field that cannot
  be cast makes the document invalid; the error is raised when it is saved.\<close>

definition new_Booking ::
  "requester \<Rightarrow> body_field \<Rightarrow> body_field \<Rightarrow> rat \<Rightarrow> error + new_booking" where
  "new_Booking u eventId qty amount =
     (case (castNumber eventId, castNumber qty) of
        (Inr eid, Inr n) \<Rightarrow>
          Inr \<lparr>user = uid u, event = eid, quantity = n, totalPrice = amount, status = Active\<rparr>
      | _ \<Rightarrow> Inl ValidationError)"

text \<open>The \<open>catch\<close> blocks: every error of \<open>POST /\<close> is a 500; \<open>PUT /:id/cancel\<close>
  answers 400 to an invalid id and 500 to everything else.\<close>

definition catch_create :: "error \<Rightarrow> response" where
  "catch_create e = ServerError"

definition catch_cancel :: "error \<Rightarrow> response" where
  "catch_cancel e = (if e = InvalidBookingID then InvalidId else ServerError)"

text \<open>\<open>router.post('/')\<close>: create a booking.\<close>

definition createBooking :: "faults \<Rightarrow> db \<Rightarrow> requester \<Rightarrow> body_field \<Rightarrow> body_field \<Rightarrow> response \<times> db" where
  "createBooking f d u eventId qty =
     (if \<not> validationResult_isEmpty eventId qty then (ValidationErrors, d)
      else
        (case (cast_filter eventId, ToNumber qty) of
           (Inr eid, Some n) \<Rightarrow>
             (case Event_findOne f d eid of
                Inl e \<Rightarrow> (catch_create e, d)
              | Inr None \<Rightarrow> (EventNotFound, d)
              | Inr (Some ev) \<Rightarrow>
                  if availableTickets ev < n then (NotEnoughTickets, d)
                  else
                    (let booking = new_Booking u eventId qty (times_Number (price ev) n)
                     in (case Event_save f d eid (ev\<lparr>availableTickets := availableTickets ev - n\<rparr>)
                                [AvailableTickets] of
                           Inl e \<Rightarrow> (catch_create e, d)
                         | Inr d1 \<Rightarrow>
                             (case booking of
                                Inl e \<Rightarrow> (catch_create e, d1)
                              | Inr b \<Rightarrow>
                                  (case Booking_insert f d1 b of
                                     (Inl e, d2) \<Rightarrow> (catch_create e, d2)
                                   | (Inr doc, d2) \<Rightarrow> (Created doc, d2))))))
         | _ \<Rightarrow> (catch_create CastError, d)))"

text \<open>\<open>router.put('/:id/cancel')\<close>: cancel a booking.\<close>

definition cancelBooking :: "faults \<Rightarrow> db \<Rightarrow> requester \<Rightarrow> int option \<Rightarrow> response \<times> db" where
  "cancelBooking f d u idParam =
     (case parseBookingId idParam of
        Inl e \<Rightarrow> (catch_cancel e, d)
      | Inr bookingId \<Rightarrow>
          (case Booking_findOne f d bookingId of
             Inl e \<Rightarrow> (catch_cancel e, d)
           | Inr None \<Rightarrow> (BookingNotFound, d)
           | Inr (Some booking) \<Rightarrow>
               if user booking \<noteq> uid u then (NotAuthorized, d)
               else if status booking = Cancelled then (AlreadyCancelled, d)
               else
                 (case Event_findOne f d (event booking) of
                    Inl e \<Rightarrow> (catch_cancel e, d)
                  | Inr None \<Rightarrow> (catch_cancel TypeError, d)
                  | Inr (Some ev) \<Rightarrow>
                      (case Event_save f d (event booking)
                              (ev\<lparr>availableTickets := availableTickets ev + quantity booking\<rparr>)
                              [AvailableTickets] of
                         Inl e \<Rightarrow> (catch_cancel e, d)
                       | Inr d1 \<Rightarrow>
                           (case Booking_save f d1 (booking\<lparr>status := Cancelled\<rparr>) of
                              Inl e \<Rightarrow> (catch_cancel e, d1)
                            | Inr d2 \<Rightarrow> (CancelOk (booking\<lparr>status := Cancelled\<rparr>), d2))))))"

section \<open>The event routes\<close>

text \<open>\<open>parseEventId\<close>, on what \<open>parseInt\<close> made of the path parameter.\<close>

definition parseEventId :: "int option \<Rightarrow> error + int" where
  "parseEventId p = (case p of None \<Rightarrow> Inl InvalidEventID | Some n \<Rightarrow> Inr n)"

definition catch_event :: "error \<Rightarrow> response" where
  "catch_event e = (if e = InvalidEventID then InvalidId else ServerError)"

text \<open>
  The fields of the body of \<open>PUT /:id\<close> that reach the inventory: each is absent or
  holds a number (a form field that is present is truthy, also when it reads 0).
  The image upload and the descriptive fields are left out.
\<close>

record updates =
  price_upd :: "rat option"
  totalTickets_upd :: "int option"
  availableTickets_upd :: "int option"

text \<open>\<open>Object.assign(event, updates)\<close>, with the paths it assigns.\<close>

definition assign_updates :: "event_doc \<Rightarrow> updates \<Rightarrow> event_doc" where
  "assign_updates ev upd =
     \<lparr>price = (case price_upd upd of None \<Rightarrow> price ev | Some p \<Rightarrow> p),
      totalTickets = (case totalTickets_upd upd of None \<Rightarrow> totalTickets ev | Some t \<Rightarrow> t),
      availableTickets =
        (case availableTickets_upd upd of None \<Rightarrow> availableTickets ev | Some a \<Rightarrow> a)\<rparr>"

definition assigned_paths :: "updates \<Rightarrow> path list" where
  "assigned_paths upd =
     (if price_upd upd = None then [] else [Price]) @
     (if totalTickets_upd upd = None then [] else [TotalTickets]) @
     (if availableTickets_upd upd = None then [] else [AvailableTickets])"

text \<open>\<open>router.put("/:id")\<close>: update an event. A new \<open>totalTickets\<close> moves
  \<open>availableTickets\<close> by the difference, and is refused when that would be negative.\<close>

definition updateEvent :: "faults \<Rightarrow> db \<Rightarrow> int option \<Rightarrow> updates \<Rightarrow> response \<times> db" where
  "updateEvent f d idParam body =
     (case parseEventId idParam of
        Inl e \<Rightarrow> (catch_event e, d)
      | Inr eventId \<Rightarrow>
          (case Event_findOne f d eventId of
             Inl e \<Rightarrow> (catch_event e, d)
           | Inr None \<Rightarrow> (EventNotFound, d)
           | Inr (Some ev) \<Rightarrow>
               (let upd = (case totalTickets_upd body of
                             None \<Rightarrow> body
                           | Some newTotalTickets \<Rightarrow>
                               body\<lparr>availableTickets_upd :=
                                 Some (availableTickets ev + (newTotalTickets - totalTickets ev))\<rparr>)
                in if totalTickets_upd body \<noteq> None \<and>
                      (case availableTickets_upd upd of None \<Rightarrow> False | Some a \<Rightarrow> a < 0)
                   then (CannotReduceTickets, d)
                   else
                     (case Event_save f d eventId (assign_updates ev upd) (assigned_paths upd) of
                        Inl e \<Rightarrow> (catch_event e, d)
                      | Inr d1 \<Rightarrow> (EventUpdated (assign_updates ev upd), d1)))))"

text \<open>\<open>router.delete("/:id")\<close>: delete an event. Its bookings are not touched.\<close>

definition deleteEvent :: "faults \<Rightarrow> db \<Rightarrow> int option \<Rightarrow> response \<times> db" where
  "deleteEvent f d idParam =
     (case parseEventId idParam of
        Inl e \<Rightarrow> (catch_event e, d)
      | Inr eventId \<Rightarrow>
          (case Event_findOneAndDelete f d eventId of
             Inl e \<Rightarrow> (catch_event e, d)
           | Inr (None, d1) \<Rightarrow> (EventNotFound, d1)
           | Inr (Some ev, d1) \<Rightarrow> (EventDeleted, d1)))"

section \<open>Sequences of requests\<close>

text \<open>A request to one of the four routes; the two event routes pass the \<open>isAdmin\<close>
  middleware first.\<close>

datatype call =
    CreateBooking requester body_field body_field
  | CancelBooking requester "int option"
  | UpdateEvent requester "int option" updates
  | DeleteEvent requester "int option"

fun handle :: "faults \<Rightarrow> db \<Rightarrow> call \<Rightarrow> response \<times> db" where
  "handle f d (CreateBooking u eventId qty) = createBooking f d u eventId qty"
| "handle f d (CancelBooking u idParam) = cancelBooking f d u idParam"
| "handle f d (UpdateEvent u idParam body) =
     (if admin u then updateEvent f d idParam body else (AdminRequired, d))"
| "handle f d (DeleteEvent u idParam) =
     (if admin u then deleteEvent f d idParam else (AdminRequired, d))"

text \<open>Requests handled one after another, each with the faults of its own store calls.\<close>

fun run :: "db \<Rightarrow> (faults \<times> call) list \<Rightarrow> response list \<times> db" where
  "run d [] = ([], d)"
| "run d ((f, c) # cs) =
     (case handle f d c of (r, d1) \<Rightarrow> (case run d1 cs of (rs, d2) \<Rightarrow> (r # rs, d2)))"

fun booking_call :: "call \<Rightarrow> bool" where
  "booking_call (CreateBooking u eventId qty) = True"
| "booking_call (CancelBooking u idParam) = True"
| "booking_call (UpdateEvent u idParam body) = False"
| "booking_call (DeleteEvent u idParam) = False"

text \<open>The tickets held by the active bookings on an event.\<close>

definition active_quantity :: "booking_doc list \<Rightarrow> int \<Rightarrow> int" where
  "active_quantity bs eid =
     sum_list (map quantity (filter (\<lambda>b. event b = eid \<and> status b = Active) bs))"


section \<open>Requests whose store calls interleave\<close>

text \<open>
  The handler of \<open>POST /\<close> suspends at each \<open>await\<close>; the code between two awaits runs
  without interruption, other requests run in between. A validated request is a task
  that advances by one store call at a time: the read of the event (with the
  availability check and the decrement of the loaded copy that follow it), the write
  of the loaded copy, and the save of the booking. The tasks are requests with scalar
  fields.
\<close>

datatype task =
    AwaitFindOne requester int int
  | AwaitEventSave int event_doc new_booking
  | AwaitBookingSave new_booking
  | Responded response

fun step :: "faults \<Rightarrow> db \<Rightarrow> task \<Rightarrow> task \<times> db" where
  "step f d (AwaitFindOne u eid n) =
     (case Event_findOne f d eid of
        Inl e \<Rightarrow> (Responded (catch_create e), d)
      | Inr None \<Rightarrow> (Responded EventNotFound, d)
      | Inr (Some ev) \<Rightarrow>
          if availableTickets ev < n then (Responded NotEnoughTickets, d)
          else (AwaitEventSave eid (ev\<lparr>availableTickets := availableTickets ev - n\<rparr>)
                  \<lparr>user = uid u, event = eid, quantity = n,
                   totalPrice = times_Number (price ev) n, status = Active\<rparr>, d))"
| "step f d (AwaitEventSave eid ev booking) =
     (case Event_save f d eid ev [AvailableTickets] of
        Inl e \<Rightarrow> (Responded (catch_create e), d)
      | Inr d1 \<Rightarrow> (AwaitBookingSave booking, d1))"
| "step f d (AwaitBookingSave booking) =
     (case Booking_insert f d booking of
        (Inl e, d1) \<Rightarrow> (Responded (catch_create e), d1)
      | (Inr doc, d1) \<Rightarrow> (Responded (Created doc), d1))"
| "step f d (Responded r) = (Responded r, d)"

text \<open>A schedule names, step by step, the task that advances.\<close>

fun interleave :: "db \<Rightarrow> task list \<Rightarrow> nat list \<Rightarrow> task list \<times> db" where
  "interleave d ts [] = (ts, d)"
| "interleave d ts (i # sched) =
     (if i < length ts
      then (case step no_faults d (ts ! i) of (t, d1) \<Rightarrow> interleave d1 (ts[i := t]) sched)
      else interleave d ts sched)"

fun is_Created :: "response \<Rightarrow> bool" where
  "is_Created (Created b) = True"
| "is_Created r = False"

text \<open>Reservation attempts of quantity 1 on one event, one after another.\<close>

fun attempts :: "db \<Rightarrow> int \<Rightarrow> requester list \<Rightarrow> response list \<times> db" where
  "attempts d eid [] = ([], d)"
| "attempts d eid (u # us) =
     (case createBooking no_faults d u (Num eid) (Num 1) of
        (r, d1) \<Rightarrow> (case attempts d1 eid us of (rs, d2) \<Rightarrow> (r # rs, d2)))"

text \<open>The last value a counter issued, 0 before its first use; the last \<open>bookingId\<close>
  issued, and the bookings whose ids came from the counter.\<close>

definition seq_of :: "counter_docs \<Rightarrow> string \<Rightarrow> int" where
  "seq_of cs name = (case cs name of None \<Rightarrow> 0 | Some s \<Rightarrow> s)"

definition last_bookingId :: "db \<Rightarrow> int" where
  "last_bookingId d = seq_of (counters d) ''bookingId''"

definition ids_issued :: "db \<Rightarrow> bool" where
  "ids_issued d = list_all (\<lambda>b. bid b \<le> last_bookingId d) (bookings d)"

text \<open>A single request running alone: its three store calls in a row.\<close>

definition alone :: "faults \<Rightarrow> db \<Rightarrow> task \<Rightarrow> task \<times> db" where
  "alone f d t =
     (case step f d t of (t1, d1) \<Rightarrow> (case step f d1 t1 of (t2, d2) \<Rightarrow> step f d2 t2))"

section \<open>The sequence allocator\<close>

text \<open>
  The two pre-save hooks are the only callers of the counters: \<open>bookingId\<close> for a new
  booking (above) and \<open>eventId\<close> for a new event.
\<close>

definition eventSchema_pre_save :: "faults \<Rightarrow> db \<Rightarrow> error + (int \<times> db)" where
  "eventSchema_pre_save f d =
     (case Counter_findOneAndUpdate f (counters d) ''eventId'' 1 of
        Inl e \<Rightarrow> Inl e
      | Inr (seq, cs) \<Rightarrow> Inr (seq, d\<lparr>counters := cs\<rparr>))"

text \<open>A new document that is saved, and the id its pre-save hook gives it, with the
  namespace of the id.\<close>

datatype new_doc = NewBooking new_booking | NewEvent

fun issue_id :: "faults \<Rightarrow> db \<Rightarrow> new_doc \<Rightarrow> error + ((string \<times> int) \<times> db)" where
  "issue_id f d (NewBooking b) =
     (case bookingSchema_pre_save f d b of
        Inl e \<Rightarrow> Inl e
      | Inr (doc, d1) \<Rightarrow> Inr ((''bookingId'', bid doc), d1))"
| "issue_id f d NewEvent =
     (case eventSchema_pre_save f d of
        Inl e \<Rightarrow> Inl e
      | Inr (i, d1) \<Rightarrow> Inr ((''eventId'', i), d1))"

text \<open>The hooks of a sequence of saves, in the order in which they reach the counters:
  the ids issued, each with its namespace; a hook that fails issues nothing.\<close>

fun pre_saves :: "db \<Rightarrow> (faults \<times> new_doc) list \<Rightarrow> (string \<times> int) list \<times> db" where
  "pre_saves d [] = ([], d)"
| "pre_saves d ((f, doc) # rest) =
     (case issue_id f d doc of
        Inl e \<Rightarrow> pre_saves d rest
      | Inr (v, d1) \<Rightarrow> (case pre_saves d1 rest of (vs, d2) \<Rightarrow> (v # vs, d2)))"

section \<open>Invariants\<close>

text \<open>The inventory equation of every stored event.\<close>

definition inventory_invariant :: "db \<Rightarrow> bool" where
  "inventory_invariant d =
     (\<forall>eid ev. events d eid = Some ev \<longrightarrow>
        availableTickets ev + active_quantity (bookings d) eid = totalTickets ev)"


section \<open>Example data\<close>

text \<open>An event with ten tickets at price 25, none booked; an owner, another user and
  an administrator.\<close>

definition event10 :: event_doc where
  "event10 = \<lparr>price = 25, totalTickets = 10, availableTickets = 10\<rparr>"

definition db10 :: db where
  "db10 = \<lparr>events = [1 \<mapsto> event10], bookings = [], counters = Map.empty\<rparr>"

definition alice :: requester where
  "alice = \<lparr>uid = 1, admin = False\<rparr>"

definition bob :: requester where
  "bob = \<lparr>uid = 2, admin = False\<rparr>"

definition root :: requester where
  "root = \<lparr>uid = 3, admin = True\<rparr>"

text \<open>An event with a single ticket left.\<close>

definition event1 :: event_doc where
  "event1 = \<lparr>price = 25, totalTickets = 1, availableTickets = 1\<rparr>"

definition db1 :: db where
  "db1 = \<lparr>events = [1 \<mapsto> event1], bookings = [], counters = Map.empty\<rparr>"

text \<open>A new booking document, not yet saved.\<close>

definition draft :: new_booking where
  "draft = \<lparr>user = 1, event = 1, quantity = 3, totalPrice = 75, status = Active\<rparr>"

text \<open>The store rejects exactly one kind of call.\<close>

definition only :: "store_op \<Rightarrow> faults" where
  "only op = (\<lambda>x. x = op)"

text \<open>The booking of three tickets that the owner makes first, the database after it,
  and the database after its cancellation.\<close>

definition booking3 :: booking_doc where
  "booking3 = \<lparr>user = 1, event = 1, quantity = 3, totalPrice = 75, status = Active, bid = 1\<rparr>"

definition db7 :: db where
  "db7 = \<lparr>events = [1 \<mapsto> \<lparr>price = 25, totalTickets = 10, availableTickets = 7\<rparr>],
          bookings = [booking3], counters = [''bookingId'' \<mapsto> 1]\<rparr>"

definition db10c :: db where
  "db10c = \<lparr>events = [1 \<mapsto> \<lparr>price = 25, totalTickets = 10, availableTickets = 10\<rparr>],
            bookings = [booking3\<lparr>status := Cancelled\<rparr>], counters = [''bookingId'' \<mapsto> 1]\<rparr>"

section \<open>Evaluation and basic facts\<close>

lemmas store_defs = no_faults_def only_def validEvent_def validBooking_def
  seq_of_def Counter_findOneAndUpdate_def Event_findOne_def
  set_paths_def Event_save_def Event_findOneAndDelete_def Booking_findOne_def
  bookingSchema_pre_save_def Booking_insert_def Booking_save_def

lemmas route_defs = parseBookingId_def validationResult_isEmpty_def ToNumber_def
  cast_filter_def castNumber_def new_Booking_def catch_create_def
  catch_cancel_def createBooking_def cancelBooking_def parseEventId_def catch_event_def
  assign_updates_def assigned_paths_def updateEvent_def deleteEvent_def

lemmas example_defs = event10_def db10_def event1_def db1_def alice_def bob_def root_def
  booking3_def db7_def db10c_def draft_def

text \<open>Products of the examples, and the product of the double nearest to 0.1 with 3,
  which is 0.30000000000000004 and not three tenths.\<close>

lemma times_Number_examples [simp]:
  "times_Number 25 3 = 75" "times_Number 25 2 = 50" "times_Number 25 1 = 25"
  by code_simp+

lemma to_double_tenth: "to_double (1 / 10) = 3602879701896397 / 36028797018963968"
  by code_simp

lemma times_Number_tenth_3:
  "times_Number (3602879701896397 / 36028797018963968) 3 =
     1351079888211149 / 4503599627370496"
  by code_simp

lemma round_half_even_nonneg: "0 \<le> y \<Longrightarrow> 0 \<le> round_half_even y"
  by (auto simp: round_half_even_def Let_def)

lemma to_double_nonneg: "0 \<le> x \<Longrightarrow> 0 \<le> to_double x"
  by (auto simp: to_double_def Let_def
      intro!: mult_nonneg_nonneg round_half_even_nonneg divide_nonneg_nonneg)

lemma times_Number_nonneg: "0 \<le> p \<Longrightarrow> 0 \<le> n \<Longrightarrow> 0 \<le> times_Number p n"
  by (simp add: times_Number_def to_double_nonneg)

lemma set_paths_available [simp]:
  "set_paths [AvailableTickets] e stored = stored\<lparr>availableTickets := availableTickets e\<rparr>"
  by (simp add: set_paths_def)

lemma status_not_Cancelled [simp]: "(s \<noteq> Cancelled) = (s = Active)"
  by (cases s) auto

lemma find_bid: "find (\<lambda>x. bid x = i) bs = Some b \<Longrightarrow> bid b = i"
  by (induction bs) (auto split: if_splits)


lemma length_update_first [simp]: "length (update_first P g xs) = length xs"
  by (induction xs) auto

subsection \<open>What a successful request did\<close>

lemma createBooking_Created:
  assumes "createBooking f d u eventId qty = (Created doc, d')"
  shows "\<exists>eid n ev. eventId = Num eid \<and> qty = Num n \<and> 1 \<le> n \<and> events d eid = Some ev \<and>
           n \<le> availableTickets ev \<and>
           events d' = (events d)(eid \<mapsto> ev\<lparr>availableTickets := availableTickets ev - n\<rparr>) \<and>
           bookings d' = bookings d @ [doc] \<and> bid doc \<notin> bid ` set (bookings d) \<and>
           user doc = uid u \<and> event doc = eid \<and> quantity doc = n \<and>
           totalPrice doc = times_Number (price ev) n \<and> status doc = Active"
  using assms
  by (auto simp: createBooking_def ToNumber_def cast_filter_def castNumber_def
      new_Booking_def catch_create_def Booking_insert_def Let_def
      validationResult_isEmpty_def Event_findOne_def Event_save_def bookingSchema_pre_save_def
      Counter_findOneAndUpdate_def
      split: if_splits body_field.splits sum.splits option.splits prod.splits)


lemma cancelBooking_CancelOk:
  assumes "cancelBooking f d u idParam = (CancelOk b', d')"
  shows "\<exists>i b ev. idParam = Some i \<and> find (\<lambda>x. bid x = i) (bookings d) = Some b \<and>
           status b = Active \<and> user b = uid u \<and> events d (event b) = Some ev \<and>
           events d' =
             (events d)(event b \<mapsto> ev\<lparr>availableTickets := availableTickets ev + quantity b\<rparr>) \<and>
           bookings d' =
             update_first (\<lambda>x. bid x = i) (\<lambda>x. x\<lparr>status := Cancelled\<rparr>) (bookings d) \<and>
           b' = b\<lparr>status := Cancelled\<rparr>"
  using assms
  by (auto simp: cancelBooking_def catch_cancel_def parseBookingId_def Booking_findOne_def
      Event_findOne_def Event_save_def Booking_save_def
      split: if_splits sum.splits option.splits prod.splits dest: find_bid)


text \<open>A request either succeeds, or ends in a server error, or changes nothing.\<close>

lemma createBooking_cases:
  assumes "createBooking f d u eventId qty = (r, d')"
  shows "(\<exists>doc. r = Created doc) \<or> r = ServerError \<or> d' = d"
  using assms
  by (auto simp: createBooking_def ToNumber_def cast_filter_def castNumber_def
      new_Booking_def catch_create_def Let_def
      split: if_splits body_field.splits sum.splits option.splits prod.splits)

lemma cancelBooking_cases:
  assumes "cancelBooking f d u idParam = (r, d')"
  shows "(\<exists>doc. r = CancelOk doc) \<or> r = ServerError \<or> d' = d"
  using assms
  by (auto simp: cancelBooking_def catch_cancel_def parseBookingId_def Booking_findOne_def
      Event_findOne_def Event_save_def Booking_save_def
      split: if_splits sum.splits option.splits prod.splits)

subsection \<open>The tickets of the active bookings\<close>

lemma active_quantity_append:
  "active_quantity (bs @ [b]) eid =
     active_quantity bs eid + (if event b = eid \<and> status b = Active then quantity b else 0)"
  by (simp add: active_quantity_def)

lemma active_quantity_cancel_first:
  assumes "find (\<lambda>x. bid x = i) bs = Some b" and "status b = Active"
  shows "active_quantity (update_first (\<lambda>x. bid x = i) (\<lambda>x. x\<lparr>status := Cancelled\<rparr>) bs) eid =
           active_quantity bs eid - (if event b = eid then quantity b else 0)"
  using assms
  by (induction bs) (auto simp: active_quantity_def split: if_splits)

lemma createBooking_invariant:
  assumes inv: "inventory_invariant d"
    and res: "createBooking f d u eventId qty = (Created doc, d')"
  shows "inventory_invariant d'"
proof -
  from createBooking_Created[OF res] obtain eid n ev where
    ev: "events d eid = Some ev"
    and evs: "events d' = (events d)(eid \<mapsto> ev\<lparr>availableTickets := availableTickets ev - n\<rparr>)"
    and bs: "bookings d' = bookings d @ [doc]"
    and doc: "event doc = eid" "quantity doc = n" "status doc = Active"
    by blast
  show ?thesis
    unfolding inventory_invariant_def
  proof (intro allI impI)
    fix i e assume e: "events d' i = Some e"
    show "availableTickets e + active_quantity (bookings d') i = totalTickets e"
    proof (cases "i = eid")
      case True
      with e evs have "e = ev\<lparr>availableTickets := availableTickets ev - n\<rparr>" by simp
      moreover from inv ev
      have "availableTickets ev + active_quantity (bookings d) eid = totalTickets ev"
        by (simp add: inventory_invariant_def)
      ultimately show ?thesis using True bs doc by (simp add: active_quantity_append)
    next
      case False
      with e evs have "events d i = Some e" by simp
      with inv have "availableTickets e + active_quantity (bookings d) i = totalTickets e"
        by (simp add: inventory_invariant_def)
      with False bs doc show ?thesis by (simp add: active_quantity_append)
    qed
  qed
qed

lemma cancelBooking_invariant:
  assumes inv: "inventory_invariant d"
    and res: "cancelBooking f d u idParam = (CancelOk doc, d')"
  shows "inventory_invariant d'"
proof -
  from cancelBooking_CancelOk[OF res] obtain i b ev where
    b: "find (\<lambda>x. bid x = i) (bookings d) = Some b" "status b = Active"
    and ev: "events d (event b) = Some ev"
    and evs: "events d' =
      (events d)(event b \<mapsto> ev\<lparr>availableTickets := availableTickets ev + quantity b\<rparr>)"
    and bs: "bookings d' =
      update_first (\<lambda>x. bid x = i) (\<lambda>x. x\<lparr>status := Cancelled\<rparr>) (bookings d)"
    by blast
  show ?thesis
    unfolding inventory_invariant_def
  proof (intro allI impI)
    fix j e assume e: "events d' j = Some e"
    show "availableTickets e + active_quantity (bookings d') j = totalTickets e"
    proof (cases "j = event b")
      case True
      with e evs have "e = ev\<lparr>availableTickets := availableTickets ev + quantity b\<rparr>" by simp
      moreover from inv ev
      have "availableTickets ev + active_quantity (bookings d) (event b) = totalTickets ev"
        by (simp add: inventory_invariant_def)
      ultimately show ?thesis using True bs by (simp add: active_quantity_cancel_first[OF b])
    next
      case False
      with e evs have "events d j = Some e" by simp
      with inv have "availableTickets e + active_quantity (bookings d) j = totalTickets e"
        by (simp add: inventory_invariant_def)
      with False bs show ?thesis by (simp add: active_quantity_cancel_first[OF b])
    qed
  qed
qed

lemma handle_invariant:
  assumes inv: "inventory_invariant d"
    and res: "handle f d c = (r, d')"
    and c: "booking_call c"
    and r: "r \<noteq> ServerError"
  shows "inventory_invariant d'"
proof (cases c)
  case (CreateBooking u eventId qty)
  with res have cr: "createBooking f d u eventId qty = (r, d')" by simp
  from createBooking_cases[OF cr] r consider doc where "r = Created doc" | "d' = d" by blast
  then show ?thesis
  proof cases
    case 1 with cr inv show ?thesis by (auto intro: createBooking_invariant)
  next
    case 2 with inv show ?thesis by simp
  qed
next
  case (CancelBooking u idParam)
  with res have ca: "cancelBooking f d u idParam = (r, d')" by simp
  from cancelBooking_cases[OF ca] r consider doc where "r = CancelOk doc" | "d' = d" by blast
  then show ?thesis
  proof cases
    case 1 with ca inv show ?thesis by (auto intro: cancelBooking_invariant)
  next
    case 2 with inv show ?thesis by simp
  qed
next
  case UpdateEvent with c show ?thesis by simp
next
  case DeleteEvent with c show ?thesis by simp
qed

lemma run_invariant:
  assumes "inventory_invariant d"
    and "run d calls = (rs, d')"
    and "list_all (\<lambda>(f, c). booking_call c) calls"
    and "ServerError \<notin> set rs"
  shows "inventory_invariant d'"
  using assms
proof (induction calls arbitrary: d rs d')
  case Nil
  then show ?case by simp
next
  case (Cons fc calls)
  obtain f c where fc: "fc = (f, c)" by (cases fc)
  obtain r d1 where h: "handle f d c = (r, d1)" by (cases "handle f d c")
  obtain rs1 d2 where t: "run d1 calls = (rs1, d2)" by (cases "run d1 calls")
  from Cons.prems(2) fc h t have eq: "rs = r # rs1" "d' = d2" by auto
  from Cons.prems(3) fc have c: "booking_call c"
    and cs: "list_all (\<lambda>(f, c). booking_call c) calls" by auto
  from Cons.prems(4) eq have r: "r \<noteq> ServerError" and rs1: "ServerError \<notin> set rs1" by auto
  from handle_invariant[OF Cons.prems(1) h c r] have "inventory_invariant d1" .
  from Cons.IH[OF this t cs rs1] eq show ?case by simp
qed

subsection \<open>Stored bookings are kept\<close>













subsection \<open>The counters\<close>

lemma issue_id_Inr:
  assumes "issue_id f d doc = Inr ((n, v), d1)"
  shows "v = seq_of (counters d) n + 1" and "counters d1 = (counters d)(n \<mapsto> v)"
    and "counters d n = None \<Longrightarrow> v = 1"
  using assms
  by (cases doc;
      auto simp: bookingSchema_pre_save_def eventSchema_pre_save_def Counter_findOneAndUpdate_def
        seq_of_def Let_def split: if_splits option.splits sum.splits)+

lemma pre_saves_above:
  assumes "pre_saves d calls = (vs, d')" and "(n, w) \<in> set vs"
  shows "seq_of (counters d) n < w"
  using assms
proof (induction calls arbitrary: d vs d')
  case Nil
  then show ?case by simp
next
  case (Cons fc calls)
  obtain f doc where fc: "fc = (f, doc)" by (cases fc)
  show ?case
  proof (cases "issue_id f d doc")
    case (Inl e)
    with Cons.prems fc have "pre_saves d calls = (vs, d')" by simp
    from Cons.IH[OF this Cons.prems(2)] show ?thesis .
  next
    case (Inr p)
    obtain m v d1 where p: "p = ((m, v), d1)" by (cases p) auto
    obtain vs1 d2 where rest: "pre_saves d1 calls = (vs1, d2)" by (cases "pre_saves d1 calls")
    from Cons.prems(1) fc Inr p rest have vs: "vs = (m, v) # vs1" by simp
    from issue_id_Inr[OF Inr[unfolded p]]
    have v: "v = seq_of (counters d) m + 1" and cs1: "counters d1 = (counters d)(m \<mapsto> v)"
      by simp_all
    have mono: "seq_of (counters d) n \<le> seq_of (counters d1) n"
      using v cs1 by (simp add: seq_of_def)
    from Cons.prems(2) vs consider "n = m" "w = v" | "(n, w) \<in> set vs1" by auto
    then show ?thesis
    proof cases
      case 1 with v show ?thesis by simp
    next
      case 2
      from Cons.IH[OF rest 2] mono show ?thesis by simp
    qed
  qed
qed

lemma pre_saves_fresh:
  assumes "pre_saves d calls = (vs, d')" and "counters d name = None"
  shows "case filter (\<lambda>p. fst p = name) vs of [] \<Rightarrow> True | p # ps \<Rightarrow> snd p = 1"
  using assms
proof (induction calls arbitrary: d vs d')
  case Nil
  then show ?case by simp
next
  case (Cons fc calls)
  obtain f doc where fc: "fc = (f, doc)" by (cases fc)
  show ?case
  proof (cases "issue_id f d doc")
    case (Inl e)
    with Cons.prems fc have "pre_saves d calls = (vs, d')" by simp
    from Cons.IH[OF this Cons.prems(2)] show ?thesis .
  next
    case (Inr p)
    obtain m v d1 where p: "p = ((m, v), d1)" by (cases p) auto
    obtain vs1 d2 where rest: "pre_saves d1 calls = (vs1, d2)" by (cases "pre_saves d1 calls")
    from Cons.prems(1) fc Inr p rest have vs: "vs = (m, v) # vs1" by simp
    note upd = issue_id_Inr[OF Inr[unfolded p]]
    show ?thesis
    proof (cases "m = name")
      case True
      with upd(3) Cons.prems(2) vs show ?thesis by simp
    next
      case False
      with upd(2) Cons.prems(2) have "counters d1 name = None" by simp
      from Cons.IH[OF rest this] False vs show ?thesis by simp
    qed
  qed
qed

lemma pre_saves_sorted:
  assumes "pre_saves d calls = (vs, d')"
  shows "sorted_wrt (<) (map snd (filter (\<lambda>p. fst p = name) vs))"
  using assms
proof (induction calls arbitrary: d vs d')
  case Nil
  then show ?case by simp
next
  case (Cons fc calls)
  obtain f doc where fc: "fc = (f, doc)" by (cases fc)
  show ?case
  proof (cases "issue_id f d doc")
    case (Inl e)
    with Cons.prems fc have "pre_saves d calls = (vs, d')" by simp
    from Cons.IH[OF this] show ?thesis .
  next
    case (Inr p)
    obtain m v d1 where p: "p = ((m, v), d1)" by (cases p) auto
    obtain vs1 d2 where rest: "pre_saves d1 calls = (vs1, d2)" by (cases "pre_saves d1 calls")
    from Cons.prems(1) fc Inr p rest have vs: "vs = (m, v) # vs1" by simp
    note upd = issue_id_Inr[OF Inr[unfolded p]]
    have "v < w" if "(m, w) \<in> set vs1" for w
      using pre_saves_above[OF rest that] upd(2) by (simp add: seq_of_def)
    with Cons.IH[OF rest] vs show ?thesis by auto
  qed
qed

subsection \<open>One request at a time\<close>

text \<open>A task that runs alone does what the handler does.\<close>

lemma alone_createBooking:
  assumes "1 \<le> n"
  shows "alone f d (AwaitFindOne u eid n) =
           (case createBooking f d u (Num eid) (Num n) of (r, d') \<Rightarrow> (Responded r, d'))"
  using assms
  by (auto simp: alone_def createBooking_def ToNumber_def cast_filter_def castNumber_def
      new_Booking_def validationResult_isEmpty_def Let_def
      split: sum.splits option.splits prod.splits)

lemma attempt_step:
  assumes ev: "events d eid = Some ev" and valid: "validEvent ev"
    and ids: "ids_issued d"
    and res: "createBooking no_faults d u (Num eid) (Num 1) = (r, d1)"
  shows "if availableTickets ev < 1 then r = NotEnoughTickets \<and> d1 = d
         else is_Created r \<and> ids_issued d1 \<and>
              events d1 eid = Some (ev\<lparr>availableTickets := availableTickets ev - 1\<rparr>)"
proof (cases "availableTickets ev < 1")
  case True
  with ev res show ?thesis
    by (auto simp: createBooking_def ToNumber_def cast_filter_def castNumber_def
      new_Booking_def validationResult_isEmpty_def Event_findOne_def no_faults_def)
next
  case False
  let ?seq = "last_bookingId d + 1"
  let ?doc = "\<lparr>user = uid u, event = eid, quantity = 1, totalPrice = times_Number (price ev) 1,
                status = Active, bid = ?seq\<rparr>"
  from ids have "?seq \<notin> bid ` set (bookings d)"
    by (auto simp: ids_issued_def list_all_iff)
  with False ev valid res
  have r: "r = Created ?doc"
    and d1: "d1 = d\<lparr>events :=
                     (events d)(eid \<mapsto> ev\<lparr>availableTickets := availableTickets ev - 1\<rparr>),
                   counters := (counters d)(''bookingId'' \<mapsto> ?seq),
                   bookings := bookings d @ [?doc]\<rparr>"
    by (auto simp: createBooking_def ToNumber_def cast_filter_def castNumber_def
      new_Booking_def validationResult_isEmpty_def Event_findOne_def no_faults_def
        Event_save_def validEvent_def validBooking_def Booking_insert_def bookingSchema_pre_save_def
        Counter_findOneAndUpdate_def last_bookingId_def seq_of_def times_Number_nonneg Let_def
        split: option.splits)
  from ids have "ids_issued d1"
    unfolding d1 by (auto simp: ids_issued_def last_bookingId_def seq_of_def list_all_iff)
  with False r d1 show ?thesis by simp
qed

lemma db7_reached:
  "run db10 [(no_faults, CreateBooking alice (Num 1) (Num 3))] = ([Created booking3], db7)"
  by (simp add: store_defs route_defs example_defs)

lemma db10c_reached:
  "run db7 [(no_faults, CancelBooking alice (Some 1))] =
     ([CancelOk (booking3\<lparr>status := Cancelled\<rparr>)], db10c)"
  by (simp add: store_defs route_defs example_defs)

text \<open>
  Non-scalar body fields pass the validation chain and fail at the save of the booking,
  after the decrement: the quantity \<open>[3]\<close>, and an \<open>eventId\<close> that is a query operator.
\<close>

lemma createBooking_array_quantity:
  "createBooking no_faults db10 alice (Num 1) (NumArray 3) =
     (ServerError,
      \<lparr>events = [1 \<mapsto> \<lparr>price = 25, totalTickets = 10, availableTickets = 7\<rparr>],
       bookings = [], counters = Map.empty\<rparr>)"
  by (simp add: store_defs route_defs example_defs)

lemma createBooking_operator_eventId:
  "createBooking no_faults db10 alice (Operator 1) (Num 3) =
     (ServerError,
      \<lparr>events = [1 \<mapsto> \<lparr>price = 25, totalTickets = 10, availableTickets = 7\<rparr>],
       bookings = [], counters = Map.empty\<rparr>)"
  by (simp add: store_defs route_defs example_defs)

section \<open>The inventory equation\<close>

text \<open>
  C1. Start from a database with no bookings in which every event has
  \<open>availableTickets = totalTickets\<close>, and let \<open>createBooking\<close> and \<open>cancelBooking\<close>
  requests be handled one after another, each running to its response before the next
  starts, with any store failures. If no request ended in a server error, then for every
  event \<open>availableTickets\<close> plus the quantities of its active bookings equals
  \<open>totalTickets\<close>. As the statement holds for every sequence of requests, it holds after
  each request of a sequence.
\<close>

theorem inventory_equation_after_bookings:
  assumes "bookings d = []"
    and "\<forall>eid ev. events d eid = Some ev \<longrightarrow> availableTickets ev = totalTickets ev"
    and "list_all (\<lambda>(f, c). booking_call c) calls"
    and "run d calls = (rs, d')"
    and "ServerError \<notin> set rs"
  shows "\<forall>eid ev. events d' eid = Some ev \<longrightarrow>
           availableTickets ev + active_quantity (bookings d') eid = totalTickets ev"
proof -
  from assms(1,2) have "inventory_invariant d"
    by (simp add: inventory_invariant_def active_quantity_def)
  from run_invariant[OF this assms(4,3,5)] show ?thesis
    by (simp add: inventory_invariant_def)
qed

theorem inventory_equation_after_bookings_witness:
  "\<exists>rs d' ev. bookings db10 = [] \<and>
     run db10 [(no_faults, CreateBooking alice (Num 1) (Num 3)),
               (no_faults, CreateBooking bob (Num 1) (Num 2)),
               (no_faults, CancelBooking alice (Some 1))] = (rs, d') \<and>
     ServerError \<notin> set rs \<and> events d' 1 = Some ev \<and> availableTickets ev = 8 \<and>
     availableTickets ev + active_quantity (bookings d') 1 = totalTickets ev"
proof -
  let ?calls = "[(no_faults, CreateBooking alice (Num 1) (Num 3)),
                 (no_faults, CreateBooking bob (Num 1) (Num 2)),
                 (no_faults, CancelBooking alice (Some 1))]"
  let ?ev = "\<lparr>price = 25, totalTickets = 10, availableTickets = 8\<rparr>"
  obtain rs d' where run: "run db10 ?calls = (rs, d')" by (cases "run db10 ?calls")
  have rs: "ServerError \<notin> set rs" and ev: "events d' 1 = Some ?ev"
    using run by (auto simp add: store_defs route_defs example_defs)
  have init: "bookings db10 = []"
    "\<forall>eid ev. events db10 eid = Some ev \<longrightarrow> availableTickets ev = totalTickets ev"
    by (auto simp: example_defs split: if_splits)
  have calls: "list_all (\<lambda>(f, c). booking_call c) ?calls" by simp
  from inventory_equation_after_bookings[OF init calls run rs] ev
  have "availableTickets ?ev + active_quantity (bookings d') 1 = totalTickets ?ev"
    by blast
  with init run rs ev show ?thesis by auto
qed

text \<open>
  When the store calls of two requests interleave the equation fails, although both
  requests are answered 201: both read ten available tickets, the first writes 7, the
  second writes 8, and five tickets are booked.
\<close>

theorem interleaved_bookings_counterexample:
  "interleave db10 [AwaitFindOne alice 1 3, AwaitFindOne bob 1 2] [0, 1, 0, 1, 0, 1] =
     ([Responded (Created booking3),
       Responded (Created \<lparr>user = 2, event = 1, quantity = 2, totalPrice = 50,
                           status = Active, bid = 2\<rparr>)],
      \<lparr>events = [1 \<mapsto> \<lparr>price = 25, totalTickets = 10, availableTickets = 8\<rparr>],
       bookings = [booking3,
                   \<lparr>user = 2, event = 1, quantity = 2, totalPrice = 50,
                    status = Active, bid = 2\<rparr>],
       counters = [''bookingId'' \<mapsto> 2]\<rparr>) \<and>
   8 + active_quantity
         [booking3,
          \<lparr>user = 2, event = 1, quantity = 2, totalPrice = 50, status = Active, bid = 2\<rparr>] 1
     \<noteq> 10"
  by (simp add: store_defs route_defs example_defs active_quantity_def)

section \<open>Reservation attempts\<close>

text \<open>
  C2. The reservation step of \<open>createBooking\<close> is a read of the event followed by a
  separate write of the decremented count. When reservation attempts of quantity 1 on
  an event with \<open>availableTickets = N\<close> are handled one after another (no store
  failures, booking ids issued by the counter), exactly \<open>min N M\<close> of the \<open>M\<close> attempts
  succeed and \<open>M - N\<close> are answered "Not enough tickets available"; for \<open>M > N\<close> that is
  \<open>N\<close> successes.
\<close>

theorem attempts_one_after_another:
  assumes "events d eid = Some ev" and "validEvent ev" and "availableTickets ev = int N"
    and "ids_issued d" and "attempts d eid us = (rs, d')"
  shows "length (filter is_Created rs) = min N (length us) \<and>
         length (filter (\<lambda>r. r = NotEnoughTickets) rs) = length us - N"
  using assms
proof (induction us arbitrary: d ev N rs d')
  case Nil
  then show ?case by simp
next
  case (Cons u us)
  obtain r d1 where c: "createBooking no_faults d u (Num eid) (Num 1) = (r, d1)"
    by (cases "createBooking no_faults d u (Num eid) (Num 1)")
  obtain rs1 d2 where t: "attempts d1 eid us = (rs1, d2)" by (cases "attempts d1 eid us")
  from Cons.prems(5) c t have rs: "rs = r # rs1" by simp
  note s = attempt_step[OF Cons.prems(1,2,4) c]
  show ?case
  proof (cases N)
    case 0
    with s Cons.prems(3) have r: "r = NotEnoughTickets" and d1: "d1 = d" by simp_all
    from Cons.IH[OF Cons.prems(1,2) _ Cons.prems(4) t[unfolded d1], of 0] Cons.prems(3) 0
    have "length (filter is_Created rs1) = min 0 (length us) \<and>
          length (filter (\<lambda>r. r = NotEnoughTickets) rs1) = length us - 0" by simp
    with rs r 0 show ?thesis by simp
  next
    case (Suc M)
    with s Cons.prems(3) have r: "is_Created r" and ids1: "ids_issued d1"
      and ev1: "events d1 eid = Some (ev\<lparr>availableTickets := availableTickets ev - 1\<rparr>)"
      by simp_all
    have valid1: "validEvent (ev\<lparr>availableTickets := availableTickets ev - 1\<rparr>)"
      using Cons.prems(2,3) Suc by (simp add: validEvent_def)
    have av1: "availableTickets (ev\<lparr>availableTickets := availableTickets ev - 1\<rparr>) = int M"
      using Cons.prems(3) Suc by simp
    from Cons.IH[OF ev1 valid1 av1 ids1 t]
    have "length (filter is_Created rs1) = min M (length us) \<and>
          length (filter (\<lambda>r. r = NotEnoughTickets) rs1) = length us - M" .
    moreover from r have "r \<noteq> NotEnoughTickets" by auto
    ultimately show ?thesis using rs r Suc by simp
  qed
qed

theorem attempts_one_after_another_witness:
  "\<exists>rs d'. events db1 1 = Some event1 \<and> validEvent event1 \<and> ids_issued db1 \<and>
     attempts db1 1 [alice, bob, root] = (rs, d') \<and>
     length (filter is_Created rs) = 1 \<and>
     length (filter (\<lambda>r. r = NotEnoughTickets) rs) = 2"
proof -
  obtain rs d' where a: "attempts db1 1 [alice, bob, root] = (rs, d')"
    by (cases "attempts db1 1 [alice, bob, root]")
  have ev: "events db1 1 = Some event1" by (simp add: db1_def)
  have valid: "validEvent event1" by (simp add: validEvent_def event1_def)
  have av: "availableTickets event1 = int 1" by (simp add: event1_def)
  have ids: "ids_issued db1" by (simp add: ids_issued_def db1_def)
  from attempts_one_after_another[OF ev valid av ids a]
  have "length (filter is_Created rs) = 1 \<and>
        length (filter (\<lambda>r. r = NotEnoughTickets) rs) = 2" by simp
  with ev valid ids a show ?thesis by blast
qed

text \<open>
  Two attempts on the last ticket whose store calls interleave both succeed: each reads
  \<open>availableTickets = 1\<close> before the other writes 0.
\<close>

theorem interleaved_oversell_counterexample:
  "interleave db1 [AwaitFindOne alice 1 1, AwaitFindOne bob 1 1] [0, 1, 0, 1, 0, 1] =
     ([Responded (Created \<lparr>user = 1, event = 1, quantity = 1, totalPrice = 25,
                           status = Active, bid = 1\<rparr>),
       Responded (Created \<lparr>user = 2, event = 1, quantity = 1, totalPrice = 25,
                           status = Active, bid = 2\<rparr>)],
      \<lparr>events = [1 \<mapsto> \<lparr>price = 25, totalTickets = 1, availableTickets = 0\<rparr>],
       bookings = [\<lparr>user = 1, event = 1, quantity = 1, totalPrice = 25,
                    status = Active, bid = 1\<rparr>,
                   \<lparr>user = 2, event = 1, quantity = 1, totalPrice = 25,
                    status = Active, bid = 2\<rparr>],
       counters = [''bookingId'' \<mapsto> 2]\<rparr>)"
  by (simp add: store_defs route_defs example_defs)

section \<open>A booking that cannot be saved\<close>

text \<open>
  C3. When \<open>createBooking\<close> has applied the inventory decrement and the save of the
  booking then fails (the counter or the insert is rejected by the store, or the next
  booking id is taken), the handler answers with a server error and nothing is rolled
  back: the event's \<open>availableTickets\<close> stays reduced by the quantity and no booking
  is stored for it.
\<close>

theorem createBooking_failed_save_keeps_decrement:
  assumes "1 \<le> n" and "events d eid = Some ev" and "n \<le> availableTickets ev"
    and "validEvent ev" and "\<not> f FindEvent" and "\<not> f SaveEvent"
    and "f IncCounter \<or> f InsertBooking \<or> last_bookingId d + 1 \<in> bid ` set (bookings d)"
  shows "\<exists>d'. createBooking f d u (Num eid) (Num n) = (ServerError, d') \<and>
           events d' eid = Some (ev\<lparr>availableTickets := availableTickets ev - n\<rparr>) \<and>
           bookings d' = bookings d"
  using assms
  by (auto simp: createBooking_def ToNumber_def cast_filter_def castNumber_def
      new_Booking_def validationResult_isEmpty_def Event_findOne_def Event_save_def
      validEvent_def Booking_insert_def bookingSchema_pre_save_def Counter_findOneAndUpdate_def
      last_bookingId_def seq_of_def catch_create_def Let_def split: option.splits)

theorem createBooking_failed_save_keeps_decrement_witness:
  "validEvent event10 \<and> only IncCounter IncCounter \<and>
   (\<exists>d'. createBooking (only IncCounter) db10 alice (Num 1) (Num 3) = (ServerError, d') \<and>
      events d' 1 = Some \<lparr>price = 25, totalTickets = 10, availableTickets = 7\<rparr> \<and>
      bookings d' = [])"
proof -
  have ev: "events db10 1 = Some event10" by (simp add: db10_def)
  have valid: "validEvent event10" by (simp add: validEvent_def event10_def)
  have f: "\<not> only IncCounter FindEvent" "\<not> only IncCounter SaveEvent"
    "only IncCounter IncCounter \<or> only IncCounter InsertBooking \<or>
       last_bookingId db10 + 1 \<in> bid ` set (bookings db10)"
    by (simp_all add: only_def)
  have n: "(1::int) \<le> 3" "3 \<le> availableTickets event10" by (simp_all add: event10_def)
  from createBooking_failed_save_keeps_decrement
         [where f = "only IncCounter" and u = alice, OF n(1) ev n(2) valid f]
  have "\<exists>d'. createBooking (only IncCounter) db10 alice (Num 1) (Num 3) = (ServerError, d') \<and>
      events d' 1 = Some \<lparr>price = 25, totalTickets = 10, availableTickets = 7\<rparr> \<and>
      bookings d' = []"
    by (simp add: event10_def db10_def)
  with valid show ?thesis by (simp add: only_def)
qed

text \<open>The insert of the booking fails: seven tickets remain available, and there is no
  booking.\<close>

theorem createBooking_rollback_counterexample:
  "createBooking (only InsertBooking) db10 alice (Num 1) (Num 3) =
     (ServerError,
      \<lparr>events = [1 \<mapsto> \<lparr>price = 25, totalTickets = 10, availableTickets = 7\<rparr>],
       bookings = [], counters = [''bookingId'' \<mapsto> 1]\<rparr>)"
  by (simp add: store_defs route_defs example_defs)

section \<open>The release of a cancellation is not capped\<close>

text \<open>
  C4. A successful \<open>cancelBooking\<close> sets the event's \<open>availableTickets\<close> to its previous
  value plus the booking's quantity, whatever \<open>totalTickets\<close> is: the release has no cap.
\<close>

theorem cancelBooking_release_uncapped:
  assumes "cancelBooking f d u idParam = (CancelOk b, d')"
    and "events d (event b) = Some ev"
  shows "events d' (event b) =
           Some (ev\<lparr>availableTickets := availableTickets ev + quantity b\<rparr>)"
  using cancelBooking_CancelOk[OF assms(1)] assms(2) by auto

theorem cancelBooking_release_uncapped_witness:
  "\<exists>d'. cancelBooking no_faults db7 alice (Some 1) = (CancelOk (booking3\<lparr>status := Cancelled\<rparr>), d') \<and>
     events db7 1 = Some \<lparr>price = 25, totalTickets = 10, availableTickets = 7\<rparr> \<and>
     events d' 1 = Some \<lparr>price = 25, totalTickets = 10, availableTickets = 10\<rparr>"
proof -
  obtain r d' where c: "cancelBooking no_faults db7 alice (Some 1) = (r, d')"
    by (cases "cancelBooking no_faults db7 alice (Some 1)")
  have r: "r = CancelOk (booking3\<lparr>status := Cancelled\<rparr>)"
    using c by (auto simp: store_defs route_defs example_defs)
  have ev: "events db7 (event (booking3\<lparr>status := Cancelled\<rparr>)) =
              Some \<lparr>price = 25, totalTickets = 10, availableTickets = 7\<rparr>"
    by (simp add: db7_def booking3_def)
  from cancelBooking_release_uncapped[OF c[unfolded r] ev]
  have "events d' 1 = Some \<lparr>price = 25, totalTickets = 10, availableTickets = 10\<rparr>"
    by (simp add: booking3_def)
  with c r ev show ?thesis by (simp add: booking3_def)
qed

text \<open>
  A duplicate release: the first cancellation writes the event and then fails to save the
  booking, which stays active; the second cancellation releases the three tickets
  again, and thirteen of ten tickets are available.
\<close>

theorem duplicate_release_counterexample:
  "run db7 [(only SaveBooking, CancelBooking alice (Some 1)),
            (no_faults, CancelBooking alice (Some 1))] =
     ([ServerError, CancelOk (booking3\<lparr>status := Cancelled\<rparr>)],
      \<lparr>events = [1 \<mapsto> \<lparr>price = 25, totalTickets = 10, availableTickets = 13\<rparr>],
       bookings = [booking3\<lparr>status := Cancelled\<rparr>],
       counters = [''bookingId'' \<mapsto> 1]\<rparr>)"
  by (simp add: store_defs route_defs example_defs)

section \<open>Rejected requests have no effect\<close>

text \<open>
  C5. A \<open>createBooking\<close> call answered with the validation errors (among them a quantity
  below 1), with "Event not found" or with "Not enough tickets available" leaves the
  whole database as it was: the event's \<open>availableTickets\<close>, the bookings and the
  counters (no booking id is consumed).
\<close>

theorem createBooking_rejected_no_effect:
  assumes "createBooking f d u eventId qty = (r, d')"
    and "r = ValidationErrors \<or> r = EventNotFound \<or> r = NotEnoughTickets"
  shows "d' = d"
  using assms
  by (auto simp: createBooking_def ToNumber_def cast_filter_def castNumber_def
      new_Booking_def catch_create_def Booking_insert_def Let_def
      split: if_splits body_field.splits sum.splits option.splits prod.splits)

theorem createBooking_rejected_no_effect_witness:
  "createBooking no_faults db10 alice (Num 1) (Num 11) = (NotEnoughTickets, db10) \<and>
   createBooking no_faults db10 alice (Num 2) (Num 1) = (EventNotFound, db10) \<and>
   createBooking no_faults db10 alice (Num 1) (Num 0) = (ValidationErrors, db10)"
proof -
  obtain r1 d1 where 1: "createBooking no_faults db10 alice (Num 1) (Num 11) = (r1, d1)"
    by (cases "createBooking no_faults db10 alice (Num 1) (Num 11)")
  obtain r2 d2 where 2: "createBooking no_faults db10 alice (Num 2) (Num 1) = (r2, d2)"
    by (cases "createBooking no_faults db10 alice (Num 2) (Num 1)")
  obtain r3 d3 where 3: "createBooking no_faults db10 alice (Num 1) (Num 0) = (r3, d3)"
    by (cases "createBooking no_faults db10 alice (Num 1) (Num 0)")
  have r: "r1 = NotEnoughTickets" "r2 = EventNotFound" "r3 = ValidationErrors"
    using 1 2 3 by (auto simp: store_defs route_defs example_defs)
  from r createBooking_rejected_no_effect[OF 1] createBooking_rejected_no_effect[OF 2]
    createBooking_rejected_no_effect[OF 3]
  have "d1 = db10" "d2 = db10" "d3 = db10" by simp_all
  with 1 2 3 r show ?thesis by simp
qed

section \<open>Cancelling a cancelled booking\<close>



section \<open>Who may cancel\<close>

text \<open>
  C7. For a \<open>cancelBooking\<close> call on an existing booking (the lookup returns it), the
  answer is 403 "Not authorized" if and only if the requester is not the booking's
  owner; whether the requester is an administrator plays no part.
\<close>

theorem cancelBooking_forbidden_iff_not_owner:
  assumes "Booking_findOne f d i = Inr (Some b)"
  shows "fst (cancelBooking f d u (Some i)) = NotAuthorized \<longleftrightarrow> user b \<noteq> uid u"
  using assms
  by (auto simp: cancelBooking_def parseBookingId_def catch_cancel_def
      Event_findOne_def Event_save_def Booking_save_def
      split: sum.splits option.splits if_splits)

theorem cancelBooking_forbidden_iff_not_owner_witness:
  "Booking_findOne no_faults db7 1 = Inr (Some booking3) \<and>
   user booking3 \<noteq> uid bob \<and> fst (cancelBooking no_faults db7 bob (Some 1)) = NotAuthorized \<and>
   user booking3 = uid alice \<and> fst (cancelBooking no_faults db7 alice (Some 1)) \<noteq> NotAuthorized"
proof -
  have found: "Booking_findOne no_faults db7 1 = Inr (Some booking3)"
    by (simp add: Booking_findOne_def no_faults_def db7_def booking3_def)
  have who: "user booking3 \<noteq> uid bob" "user booking3 = uid alice"
    by (simp_all add: booking3_def alice_def bob_def)
  from cancelBooking_forbidden_iff_not_owner[OF found, of bob]
    cancelBooking_forbidden_iff_not_owner[OF found, of alice] who
  have "fst (cancelBooking no_faults db7 bob (Some 1)) = NotAuthorized"
    "fst (cancelBooking no_faults db7 alice (Some 1)) \<noteq> NotAuthorized"
    by simp_all
  with found who show ?thesis by simp
qed

text \<open>An administrator who does not own the booking is answered 403, and the booking
  stays active.\<close>

theorem admin_cancel_counterexample:
  "admin root \<and>
   run db10 [(no_faults, CreateBooking alice (Num 1) (Num 3)),
             (no_faults, CancelBooking root (Some 1))] =
     ([Created booking3, NotAuthorized], db7)"
  by (simp add: store_defs route_defs example_defs)

section \<open>Identifiers\<close>

text \<open>
  C8. In any sequence of saves of new bookings and new events, with any failed calls
  in between, the ids that the pre-save hooks issue in one namespace (\<open>bookingId\<close>,
  \<open>eventId\<close>) are strictly increasing in the order in which the hooks reach the
  counter, hence distinct; and when the namespace had no counter before, the first id
  issued in it is 1.
\<close>

theorem ids_strictly_increasing:
  assumes "pre_saves d calls = (vs, d')"
  shows "sorted_wrt (<) (map snd (filter (\<lambda>p. fst p = name) vs)) \<and>
         distinct (map snd (filter (\<lambda>p. fst p = name) vs)) \<and>
         (counters d name = None \<longrightarrow>
            (case filter (\<lambda>p. fst p = name) vs of [] \<Rightarrow> True | p # ps \<Rightarrow> snd p = 1))"
proof -
  note sorted = pre_saves_sorted[OF assms, of name]
  moreover from sorted have "distinct (map snd (filter (\<lambda>p. fst p = name) vs))"
    by (simp add: strict_sorted_iff)
  ultimately show ?thesis using pre_saves_fresh[OF assms] by blast
qed

theorem ids_strictly_increasing_witness:
  "\<exists>d'. pre_saves db10
           [(no_faults, NewBooking draft), (no_faults, NewEvent),
            (only IncCounter, NewBooking draft), (no_faults, NewBooking draft)] =
         ([(''bookingId'', 1), (''eventId'', 1), (''bookingId'', 2)], d') \<and>
       counters db10 ''bookingId'' = None \<and>
       sorted_wrt (<) (map snd (filter (\<lambda>p. fst p = ''bookingId'')
         [(''bookingId'', 1), (''eventId'', 1), (''bookingId'', 2::int)])) \<and>
       snd (hd (filter (\<lambda>p. fst p = ''eventId'')
         [(''bookingId'', 1), (''eventId'', 1), (''bookingId'', 2::int)])) = 1"
proof -
  let ?calls = "[(no_faults, NewBooking draft), (no_faults, NewEvent),
                 (only IncCounter, NewBooking draft), (no_faults, NewBooking draft)]"
  let ?vs = "[(''bookingId'', 1), (''eventId'', 1), (''bookingId'', 2::int)]"
  obtain vs d' where a: "pre_saves db10 ?calls = (vs, d')"
    by (cases "pre_saves db10 ?calls")
  have vs: "vs = ?vs"
    using a by (auto simp: store_defs eventSchema_pre_save_def db10_def)
  have fresh: "counters db10 ''bookingId'' = None" "counters db10 ''eventId'' = None"
    by (simp_all add: db10_def)
  from ids_strictly_increasing[OF a[unfolded vs], of "''bookingId''"]
    ids_strictly_increasing[OF a[unfolded vs], of "''eventId''"] fresh
  have "sorted_wrt (<) (map snd (filter (\<lambda>p. fst p = ''bookingId'') ?vs))"
    "snd (hd (filter (\<lambda>p. fst p = ''eventId'') ?vs)) = 1"
    by simp_all
  with a vs fresh show ?thesis by blast
qed

section \<open>The fields of a booking are frozen\<close>



section \<open>A booking whose event was deleted\<close>

text \<open>
  C10. Right after an event was deleted, a \<open>cancelBooking\<close> call by the owner of an
  active booking of that event is answered with the generic server error (500), not
  with a typed "not found", and leaves the whole database unchanged: no inventory is
  released and the booking stays active. (A requester who is not the owner is stopped
  by the ownership check before, with 403 and no change either.)
\<close>

theorem cancelBooking_deleted_event:
  assumes "deleteEvent f0 d0 (Some eid) = (EventDeleted, d)"
    and "Booking_findOne f d i = Inr (Some b)"
    and "event b = eid" and "status b = Active"
  shows "cancelBooking f d u (Some i) =
           (if user b = uid u then ServerError else NotAuthorized, d)"
proof -
  from assms(1) have "events d eid = None"
    by (auto simp: deleteEvent_def parseEventId_def Event_findOneAndDelete_def catch_event_def
        split: if_splits option.splits)
  with assms(2-) show ?thesis
    by (simp add: cancelBooking_def parseBookingId_def Event_findOne_def catch_cancel_def)
qed

theorem cancelBooking_deleted_event_witness:
  "\<exists>d. deleteEvent no_faults db7 (Some 1) = (EventDeleted, d) \<and>
     Booking_findOne no_faults d 1 = Inr (Some booking3) \<and>
     event booking3 = 1 \<and> status booking3 = Active \<and>
     cancelBooking no_faults d alice (Some 1) = (ServerError, d)"
proof -
  obtain r d where del: "deleteEvent no_faults db7 (Some 1) = (r, d)"
    by (cases "deleteEvent no_faults db7 (Some 1)")
  have r: "r = EventDeleted" and bs: "bookings d = [booking3]"
    using del by (auto simp: store_defs route_defs db7_def)
  from bs have found: "Booking_findOne no_faults d 1 = Inr (Some booking3)"
    by (simp add: Booking_findOne_def no_faults_def booking3_def)
  have b: "event booking3 = 1" "status booking3 = Active" by (simp_all add: booking3_def)
  from cancelBooking_deleted_event[OF del[unfolded r] found b, of alice]
  have "cancelBooking no_faults d alice (Some 1) = (ServerError, d)"
    by (simp add: booking3_def alice_def)
  with del r found b show ?thesis by blast
qed

end
